theory Spec2Isabelle
  imports Complex_Main
begin

section \<open>Strings and the regular expressions of \<open>PhoneValidator\<close>\<close>

text \<open>
  A Python \<open>str\<close> is modelled as a \<open>string\<close>, one \<open>char\<close> per code point, for
  code points below 256. On these the class \<open>\d\<close> of Python's \<open>re\<close> is exactly the
  ten characters \<open>0\<close> .. \<open>9\<close>, and \<open>\D\<close> is every other character. The non-ASCII
  letters of the source's literals are written by their code point.
\<close>

definition is_digit :: "char \<Rightarrow> bool" where
  "is_digit c \<longleftrightarrow> c \<in> set ''0123456789''"

text \<open>
  The three entries of \<open>PATTERNS\<close> have one shape: \<open>^\<close>, three groups that are each
  a fixed sequence of character classes, \<open>$\<close>. A pattern is the list of its groups, a
  group the list of its classes; \<open>\d{n}\<close> is \<open>n\<close> copies of \<open>Digit\<close>.
\<close>

datatype cclass = Digit | Lit char | Range char char

fun cmatch :: "cclass \<Rightarrow> char \<Rightarrow> bool" where
  "cmatch Digit c = is_digit c"
| "cmatch (Lit k) c = (c = k)"
| "cmatch (Range lo hi) c = ((of_char lo :: nat) \<le> of_char c \<and> (of_char c :: nat) \<le> of_char hi)"

type_synonym pattern = "cclass list list"

definition pattern_mobile :: pattern where
  "pattern_mobile = [replicate 2 Digit, Lit (CHR ''9'') # replicate 4 Digit, replicate 4 Digit]"

definition pattern_landline :: pattern where
  "pattern_landline =
     [replicate 2 Digit, Range (CHR ''2'') (CHR ''5'') # replicate 3 Digit, replicate 4 Digit]"

definition pattern_short :: pattern where
  "pattern_short =
     [replicate 2 Digit, Range (CHR ''2'') (CHR ''5'') # replicate 2 Digit, replicate 4 Digit]"

text \<open>One group: the captured text and the rest of the subject, or no match.\<close>

fun match_group :: "cclass list \<Rightarrow> string \<Rightarrow> (string \<times> string) option" where
  "match_group [] s = Some ([], s)"
| "match_group (k # ks) [] = None"
| "match_group (k # ks) (c # cs) =
     (if cmatch k c
      then (case match_group ks cs of None \<Rightarrow> None | Some (g, r) \<Rightarrow> Some (c # g, r))
      else None)"

text \<open>
  \<open>re.match\<close> of an anchored pattern: the groups in sequence from the start of the
  subject, then \<open>$\<close>, which holds at the end of the subject and also just before a
  final newline. The result is the list of captured groups.
\<close>

fun match_groups :: "pattern \<Rightarrow> string \<Rightarrow> string list option" where
  "match_groups [] s = (if s = [] \<or> s = [CHR 0x0A] then Some [] else None)"
| "match_groups (g # gs) s =
     (case match_group g s of
        None \<Rightarrow> None
      | Some (cap, r) \<Rightarrow>
          (case match_groups gs r of None \<Rightarrow> None | Some caps \<Rightarrow> Some (cap # caps)))"

definition re_match :: "pattern \<Rightarrow> string \<Rightarrow> string list option" where
  "re_match p s = match_groups p s"

text \<open>\<open>match.group(i)\<close> for \<open>i \<ge> 1\<close>.\<close>

definition group :: "string list \<Rightarrow> nat \<Rightarrow> string" where
  "group m i = m ! (i - 1)"

section \<open>\<open>PhoneValidator\<close>\<close>

definition MOVEL :: string where
  "MOVEL = ''M'' @ [CHR 0xD3] @ ''VEL''"

definition FIXO :: string where
  "FIXO = ''FIXO''"

definition INVALIDO :: string where
  "INVALIDO = ''INV'' @ [CHR 0xC1] @ ''LIDO''"

definition formato_invalido :: string where
  "formato_invalido = ''Formato inv'' @ [CHR 0xE1] @ ''lido''"

definition formato_nao_reconhecido :: string where
  "formato_nao_reconhecido = ''Formato n'' @ [CHR 0xE3] @ ''o reconhecido''"

text \<open>
  \<open>normalize\<close>: \<open>re.sub(r'\D', '', phone)\<close> keeps the digits in order; a leading
  \<open>0\<close> is dropped only when there are exactly 11 digits; the result is returned when
  it has 10 or 11 digits, \<open>None\<close> otherwise.
\<close>

definition normalize :: "string \<Rightarrow> string option" where
  "normalize phone =
     (let digits = filter is_digit phone;
          digits = (if length digits = 11 \<and> digits ! 0 = CHR ''0'' then drop 1 digits else digits)
      in if 10 \<le> length digits \<and> length digits \<le> 11 then Some digits else None)"

text \<open>
  \<open>validate\<close> returns the triple (valid, kind or message, parts); the dict of parts is
  an association list in the order of the source's literal. A branch whose pattern does
  not match falls through to the last \<open>return\<close>.
\<close>

type_synonym parts = "(string \<times> string) list"

definition not_recognised :: "bool \<times> string \<times> parts" where
  "not_recognised = (False, formato_nao_reconhecido, [])"

definition validate :: "string \<Rightarrow> bool \<times> string \<times> parts" where
  "validate phone =
     (case normalize phone of
        None \<Rightarrow> (False, formato_invalido, [])
      | Some digits \<Rightarrow>
          if digits = [] then (False, formato_invalido, [])
          else if length digits = 11 \<and> digits ! 2 = CHR ''9'' then
            (case re_match pattern_mobile digits of
               Some m \<Rightarrow>
                 (True, MOVEL,
                  [(''ddd'', group m 1),
                   (''prefixo'', drop 1 (group m 2)),
                   (''sufixo'', group m 3),
                   (''raw_prefixo'', group m 2)])
             | None \<Rightarrow> not_recognised)
          else if length digits = 11 then
            (case re_match pattern_landline digits of
               Some m \<Rightarrow>
                 (True, FIXO,
                  [(''ddd'', group m 1), (''prefixo'', group m 2), (''sufixo'', group m 3)])
             | None \<Rightarrow> not_recognised)
          else if length digits = 10 then
            (case re_match pattern_short digits of
               Some m \<Rightarrow>
                 (True, FIXO,
                  [(''ddd'', group m 1), (''prefixo'', group m 2), (''sufixo'', group m 3)])
             | None \<Rightarrow> not_recognised)
          else not_recognised)"

section \<open>\<open>PhoneInfo\<close> and \<open>CacheManager\<close>\<close>

record PhoneInfo =
  numero :: string
  ddd :: string
  prefixo :: string
  sufixo :: string
  operadora :: string
  cidade :: string
  uf :: string
  tipo :: string
  latitude :: "real option"
  longitude :: "real option"
  consulta_ts :: int
  valido :: bool
  portabilidade :: bool

definition Desconhecida :: string where
  "Desconhecida = ''Desconhecida''"

text \<open>The dataclass constructor with only its four required fields: the defaults.\<close>

definition PhoneInfo_init :: "string \<Rightarrow> string \<Rightarrow> string \<Rightarrow> string \<Rightarrow> PhoneInfo" where
  "PhoneInfo_init n a p s =
     \<lparr>numero = n, ddd = a, prefixo = p, sufixo = s,
      operadora = Desconhecida, cidade = Desconhecida, uf = ''??'', tipo = ''Desconhecido'',
      latitude = None, longitude = None, consulta_ts = 0, valido = False,
      portabilidade = False\<rparr>"

definition CACHE_TTL :: int where
  "CACHE_TTL = 86400"

text \<open>
  The cache directory maps a key (the file \<open>key.json\<close>) to its content. A file written
  by \<open>save\<close> holds the JSON of \<open>asdict(info)\<close>, which \<open>json.load\<close> and
  \<open>PhoneInfo(**cached)\<close> turn back into the same dataclass value: it is modelled by that
  value. A file that cannot be read or parsed is \<open>Unreadable\<close>: \<open>load\<close> catches the
  exception and returns \<open>None\<close>, leaving the file. Writes are taken to succeed.

  \<open>hashlib.md5(...).hexdigest()\<close> is library code: the hash is the parameter
  \<open>md5\<close>, the digest of a string's UTF-8 bytes as a function of the string.
  \<open>time.time()\<close> is a parameter too, a real number of seconds.

  A \<open>string\<close> holds code points below 256 only, so \<open>phone.encode()\<close> succeeds on it
  and \<open>get_key\<close> returns. The strings on which \<open>encode\<close> raises, and \<open>get_key\<close>, \<open>load\<close>
  and \<open>lookup\<close> with it, are modelled below (\<open>get_key_str\<close>, \<open>lookup_str\<close>).
\<close>

datatype cache_file = Snapshot PhoneInfo | Unreadable

type_synonym cache_dir = "string \<rightharpoonup> cache_file"

definition get_key :: "(string \<Rightarrow> string) \<Rightarrow> string \<Rightarrow> string" where
  "get_key md5 phone = md5 phone"

definition load ::
  "(string \<Rightarrow> string) \<Rightarrow> real \<Rightarrow> cache_dir \<Rightarrow> string \<Rightarrow> PhoneInfo option \<times> cache_dir" where
  "load md5 now files phone =
     (let cache_file = get_key md5 phone in
      case files cache_file of
        None \<Rightarrow> (None, files)
      | Some Unreadable \<Rightarrow> (None, files)
      | Some (Snapshot data) \<Rightarrow>
          if now - of_int (consulta_ts data) > of_int CACHE_TTL
          then (None, files(cache_file := None))
          else (Some data, files))"

definition save :: "(string \<Rightarrow> string) \<Rightarrow> cache_dir \<Rightarrow> string \<Rightarrow> PhoneInfo \<Rightarrow> cache_dir" where
  "save md5 files phone data = files(get_key md5 phone \<mapsto> Snapshot data)"

section \<open>\<open>PhoneLookup\<close>\<close>

record ddd_entry =
  estado :: string
  regiao :: string

definition DDD_DATABASE :: "(string \<times> ddd_entry) list" where
  "DDD_DATABASE =
     [(''11'', \<lparr>estado = ''SP'', regiao = ''S'' @ [CHR 0xE3] @ ''o Paulo/SP''\<rparr>),
      (''12'', \<lparr>estado = ''SP'', regiao = ''S'' @ [CHR 0xE3] @ ''o Jos'' @ [CHR 0xE9] @ '' dos Campos/SP''\<rparr>),
      (''13'', \<lparr>estado = ''SP'', regiao = ''Santos/SP''\<rparr>),
      (''14'', \<lparr>estado = ''SP'', regiao = ''Bauru/SP''\<rparr>),
      (''15'', \<lparr>estado = ''SP'', regiao = ''Sorocaba/SP''\<rparr>),
      (''16'', \<lparr>estado = ''SP'', regiao = ''Ribeir'' @ [CHR 0xE3] @ ''o Preto/SP''\<rparr>),
      (''17'', \<lparr>estado = ''SP'', regiao = ''S'' @ [CHR 0xE3] @ ''o Jos'' @ [CHR 0xE9] @ '' do Rio Preto/SP''\<rparr>),
      (''18'', \<lparr>estado = ''SP'', regiao = ''Presidente Prudente/SP''\<rparr>),
      (''19'', \<lparr>estado = ''SP'', regiao = ''Campinas/SP''\<rparr>),
      (''21'', \<lparr>estado = ''RJ'', regiao = ''Rio de Janeiro/RJ''\<rparr>),
      (''22'', \<lparr>estado = ''RJ'', regiao = ''Campos dos Goytacazes/RJ''\<rparr>),
      (''24'', \<lparr>estado = ''RJ'', regiao = ''Volta Redonda/RJ''\<rparr>),
      (''27'', \<lparr>estado = ''ES'', regiao = ''Vit'' @ [CHR 0xF3] @ ''ria/ES''\<rparr>),
      (''28'', \<lparr>estado = ''ES'', regiao = ''Cachoeiro de Itapemirim/ES''\<rparr>),
      (''31'', \<lparr>estado = ''MG'', regiao = ''Belo Horizonte/MG''\<rparr>),
      (''32'', \<lparr>estado = ''MG'', regiao = ''Juiz de Fora/MG''\<rparr>),
      (''33'', \<lparr>estado = ''MG'', regiao = ''Governador Valadares/MG''\<rparr>),
      (''34'', \<lparr>estado = ''MG'', regiao = ''Uberl'' @ [CHR 0xE2] @ ''ndia/MG''\<rparr>),
      (''35'', \<lparr>estado = ''MG'', regiao = ''Po'' @ [CHR 0xE7] @ ''os de Caldas/MG''\<rparr>),
      (''37'', \<lparr>estado = ''MG'', regiao = ''Divin'' @ [CHR 0xF3] @ ''polis/MG''\<rparr>),
      (''38'', \<lparr>estado = ''MG'', regiao = ''Montes Claros/MG''\<rparr>),
      (''41'', \<lparr>estado = ''PR'', regiao = ''Curitiba/PR''\<rparr>),
      (''42'', \<lparr>estado = ''PR'', regiao = ''Ponta Grossa/PR''\<rparr>),
      (''43'', \<lparr>estado = ''PR'', regiao = ''Londrina/PR''\<rparr>),
      (''44'', \<lparr>estado = ''PR'', regiao = ''Maring'' @ [CHR 0xE1] @ ''/PR''\<rparr>),
      (''45'', \<lparr>estado = ''PR'', regiao = ''Foz do Igua'' @ [CHR 0xE7] @ ''u/PR''\<rparr>),
      (''46'', \<lparr>estado = ''PR'', regiao = ''Francisco Beltr'' @ [CHR 0xE3] @ ''o/PR''\<rparr>),
      (''47'', \<lparr>estado = ''SC'', regiao = ''Joinville/SC''\<rparr>),
      (''48'', \<lparr>estado = ''SC'', regiao = ''Florian'' @ [CHR 0xF3] @ ''polis/SC''\<rparr>),
      (''49'', \<lparr>estado = ''SC'', regiao = ''Chapec'' @ [CHR 0xF3] @ ''/SC''\<rparr>),
      (''51'', \<lparr>estado = ''RS'', regiao = ''Porto Alegre/RS''\<rparr>),
      (''53'', \<lparr>estado = ''RS'', regiao = ''Pelotas/RS''\<rparr>),
      (''54'', \<lparr>estado = ''RS'', regiao = ''Caxias do Sul/RS''\<rparr>),
      (''55'', \<lparr>estado = ''RS'', regiao = ''Santa Maria/RS''\<rparr>),
      (''61'', \<lparr>estado = ''DF'', regiao = ''Bras'' @ [CHR 0xED] @ ''lia/DF''\<rparr>),
      (''62'', \<lparr>estado = ''GO'', regiao = ''Goi'' @ [CHR 0xE2] @ ''nia/GO''\<rparr>),
      (''63'', \<lparr>estado = ''TO'', regiao = ''Palmas/TO''\<rparr>),
      (''64'', \<lparr>estado = ''GO'', regiao = ''Rio Verde/GO''\<rparr>),
      (''65'', \<lparr>estado = ''MT'', regiao = ''Cuiab'' @ [CHR 0xE1] @ ''/MT''\<rparr>),
      (''66'', \<lparr>estado = ''MT'', regiao = ''Rondon'' @ [CHR 0xF3] @ ''polis/MT''\<rparr>),
      (''67'', \<lparr>estado = ''MS'', regiao = ''Campo Grande/MS''\<rparr>),
      (''68'', \<lparr>estado = ''AC'', regiao = ''Rio Branco/AC''\<rparr>),
      (''69'', \<lparr>estado = ''RO'', regiao = ''Porto Velho/RO''\<rparr>),
      (''71'', \<lparr>estado = ''BA'', regiao = ''Salvador/BA''\<rparr>),
      (''73'', \<lparr>estado = ''BA'', regiao = ''Ilh'' @ [CHR 0xE9] @ ''us/BA''\<rparr>),
      (''74'', \<lparr>estado = ''BA'', regiao = ''Juazeiro/BA''\<rparr>),
      (''75'', \<lparr>estado = ''BA'', regiao = ''Feira de Santana/BA''\<rparr>),
      (''77'', \<lparr>estado = ''BA'', regiao = ''Barreiras/BA''\<rparr>),
      (''79'', \<lparr>estado = ''SE'', regiao = ''Aracaju/SE''\<rparr>),
      (''81'', \<lparr>estado = ''PE'', regiao = ''Recife/PE''\<rparr>),
      (''82'', \<lparr>estado = ''AL'', regiao = ''Macei'' @ [CHR 0xF3] @ ''/AL''\<rparr>),
      (''83'', \<lparr>estado = ''PB'', regiao = ''Jo'' @ [CHR 0xE3] @ ''o Pessoa/PB''\<rparr>),
      (''84'', \<lparr>estado = ''RN'', regiao = ''Natal/RN''\<rparr>),
      (''85'', \<lparr>estado = ''CE'', regiao = ''Fortaleza/CE''\<rparr>),
      (''86'', \<lparr>estado = ''PI'', regiao = ''Teresina/PI''\<rparr>),
      (''87'', \<lparr>estado = ''PE'', regiao = ''Petrolina/PE''\<rparr>),
      (''88'', \<lparr>estado = ''CE'', regiao = ''Juazeiro do Norte/CE''\<rparr>),
      (''89'', \<lparr>estado = ''PI'', regiao = ''Picos/PI''\<rparr>),
      (''91'', \<lparr>estado = ''PA'', regiao = ''Bel'' @ [CHR 0xE9] @ ''m/PA''\<rparr>),
      (''92'', \<lparr>estado = ''AM'', regiao = ''Manaus/AM''\<rparr>),
      (''93'', \<lparr>estado = ''PA'', regiao = ''Santar'' @ [CHR 0xE9] @ ''m/PA''\<rparr>),
      (''94'', \<lparr>estado = ''PA'', regiao = ''Marab'' @ [CHR 0xE1] @ ''/PA''\<rparr>),
      (''95'', \<lparr>estado = ''RR'', regiao = ''Boa Vista/RR''\<rparr>),
      (''96'', \<lparr>estado = ''AP'', regiao = ''Macap'' @ [CHR 0xE1] @ ''/AP''\<rparr>),
      (''97'', \<lparr>estado = ''AM'', regiao = ''Coari/AM''\<rparr>),
      (''98'', \<lparr>estado = ''MA'', regiao = ''S'' @ [CHR 0xE3] @ ''o Lu'' @ [CHR 0xED] @ ''s/MA''\<rparr>),
      (''99'', \<lparr>estado = ''MA'', regiao = ''Imperatriz/MA''\<rparr>)]"

definition OPERATOR_PREFIXES :: "(string \<times> (string \<times> (string \<times> string list) list) list) list" where
  "OPERATOR_PREFIXES =
     [(''11'',
       [(''9'', [(''VIVO'', [''96'', ''97'', ''98'', ''99'']), (''TIM'', [''94'', ''95'']),
                 (''CLARO'', [''92'', ''93'']), (''OI'', [''91''])]),
        (''3'', [(''VIVO'', [''30-39'']), (''TIM'', [''20-29'']), (''CLARO'', [''10-19''])])]),
      (''83'',
       [(''9'', [(''VIVO'', [''96'', ''97'']), (''TIM'', [''94'', ''95'']),
                 (''CLARO'', [''92'', ''93'']), (''OI'', [''91''])]),
        (''3'', [(''VIVO'', [''32-35'']), (''TIM'', [''21-25'']), (''CLARO'', [''11-15''])])])]"

datatype py_error = ValueError | KeyError | UnicodeEncodeError

text \<open>
  The reply of the portability service, as \<open>consulta_api_portabilidade\<close> returns it:
  \<open>None\<close> on any failure, a dict of four fields otherwise. The service is the
  parameter \<open>api\<close> of \<open>lookup\<close>.
\<close>

record api_data =
  api_operadora :: string
  api_cidade :: string
  api_uf :: string
  api_portabilidade :: bool

subsection \<open>\<open>int(...)\<close> and \<open>str.split\<close>\<close>

text \<open>
  \<open>int(s)\<close> on a string: surrounding whitespace is ignored (tab to carriage return,
  space, U+0085 and U+00A0 among the code points below 256), one sign is allowed, then
  decimal digits, with single underscores between digits. Anything else raises
  \<open>ValueError\<close>, here \<open>None\<close>.
\<close>

definition is_space :: "char \<Rightarrow> bool" where
  "is_space c =
     (let n = (of_char c :: nat)
      in (9 \<le> n \<and> n \<le> 13) \<or> n = 32 \<or> n = 133 \<or> n = 160)"

definition digit_val :: "char \<Rightarrow> int" where
  "digit_val c = int (of_char c) - 48"

definition dec_value :: "string \<Rightarrow> int" where
  "dec_value v = foldl (\<lambda>acc c. 10 * acc + digit_val c) 0 v"

fun no_double_underscore :: "string \<Rightarrow> bool" where
  "no_double_underscore (a # b # cs) =
     (\<not> (a = CHR ''_'' \<and> b = CHR ''_'') \<and> no_double_underscore (b # cs))"
| "no_double_underscore cs = True"

definition int_literal_ok :: "string \<Rightarrow> bool" where
  "int_literal_ok v \<longleftrightarrow>
     v \<noteq> [] \<and> is_digit (hd v) \<and> is_digit (last v) \<and>
     list_all (\<lambda>c. is_digit c \<or> c = CHR ''_'') v \<and> no_double_underscore v"

definition py_int :: "string \<Rightarrow> int option" where
  "py_int s =
     (let t = dropWhile is_space s;
          neg = (take 1 t = ''-'');
          u = (if take 1 t = ''-'' \<or> take 1 t = ''+'' then drop 1 t else t);
          v = rev (dropWhile is_space (rev u))
      in if int_literal_ok v
         then Some ((if neg then - 1 else 1) * dec_value (filter (\<lambda>c. c \<noteq> CHR ''_'') v))
         else None)"

text \<open>\<open>s.split(sep)\<close> with a one-character separator.\<close>

fun split_on :: "char \<Rightarrow> string \<Rightarrow> string list" where
  "split_on sep [] = [[]]"
| "split_on sep (c # cs) =
     (if c = sep then [] # split_on sep cs
      else (case split_on sep cs of [] \<Rightarrow> [[c]] | w # ws \<Rightarrow> (c # w) # ws))"

text \<open>\<open>int(time.time())\<close>: truncation towards zero.\<close>

definition int_of_time :: "real \<Rightarrow> int" where
  "int_of_time t = (if 0 \<le> t then \<lfloor>t\<rfloor> else \<lceil>t\<rceil>)"

subsection \<open>\<open>get_operator_by_prefix\<close>\<close>

text \<open>\<open>inicio, fim = map(int, pref.split('-'))\<close>: exactly two integers, else \<open>ValueError\<close>.\<close>

definition parse_range :: "string \<Rightarrow> py_error + int \<times> int" where
  "parse_range pref =
     (case map py_int (split_on (CHR ''-'') pref) of
        [Some inicio, Some fim] \<Rightarrow> Inr (inicio, fim)
      | _ \<Rightarrow> Inl ValueError)"

text \<open>
  The inner loop over one carrier's specifications: \<open>Inr True\<close> when a specification
  matches (the source returns the carrier), \<open>Inr False\<close> when the loop ends.
\<close>

fun match_prefixos :: "string \<Rightarrow> string list \<Rightarrow> py_error + bool" where
  "match_prefixos pfx [] = Inr False"
| "match_prefixos pfx (pref # rest) =
     (if CHR ''-'' \<in> set pref then
        (case parse_range pref of
           Inl e \<Rightarrow> Inl e
         | Inr (inicio, fim) \<Rightarrow>
             (case py_int (take 2 pfx) of
                None \<Rightarrow> Inl ValueError
              | Some n \<Rightarrow> if inicio \<le> n \<and> n \<le> fim then Inr True else match_prefixos pfx rest))
      else if take (length pref) pfx = pref then Inr True
      else match_prefixos pfx rest)"

text \<open>The outer loop over \<open>operadores.items()\<close>, in the order of the dict literal.\<close>

fun scan_operadores :: "string \<Rightarrow> (string \<times> string list) list \<Rightarrow> py_error + string option" where
  "scan_operadores pfx [] = Inr None"
| "scan_operadores pfx ((name, prefixos) # rest) =
     (case match_prefixos pfx prefixos of
        Inl e \<Rightarrow> Inl e
      | Inr True \<Rightarrow> Inr (Some name)
      | Inr False \<Rightarrow> scan_operadores pfx rest)"

definition get_operator_by_prefix :: "string \<Rightarrow> string \<Rightarrow> string \<Rightarrow> py_error + string" where
  "get_operator_by_prefix area pfx kind =
     (case map_of OPERATOR_PREFIXES area of
        None \<Rightarrow> Inr Desconhecida
      | Some ddd_data \<Rightarrow>
          if kind = MOVEL then
            (let primeira_part = take 1 pfx in
             case map_of ddd_data primeira_part of
               None \<Rightarrow> Inr Desconhecida
             | Some operadores \<Rightarrow>
                 (case scan_operadores pfx operadores of
                    Inl e \<Rightarrow> Inl e
                  | Inr (Some name) \<Rightarrow> Inr name
                  | Inr None \<Rightarrow> Inr Desconhecida))
          else Inr Desconhecida)"

subsection \<open>\<open>lookup\<close>\<close>

text \<open>\<open>partes[key]\<close>: \<open>KeyError\<close> when the key is missing.\<close>

definition getitem :: "parts \<Rightarrow> string \<Rightarrow> py_error + string" where
  "getitem partes key = (case map_of partes key of None \<Rightarrow> Inl KeyError | Some v \<Rightarrow> Inr v)"

definition invalid_info :: "string \<Rightarrow> PhoneInfo" where
  "invalid_info phone = (PhoneInfo_init phone [] [] []) \<lparr>valido := False, tipo := INVALIDO\<rparr>"

text \<open>
  The carrier, city, state and portability of a valid number: the service's reply when
  there is one, the static tables otherwise.
\<close>

definition resolve_fields ::
  "api_data option \<Rightarrow> parts \<Rightarrow> string \<Rightarrow> string \<Rightarrow> py_error + string \<times> string \<times> string \<times> bool" where
  "resolve_fields reply partes area kind =
     (let ddd_info = (case map_of DDD_DATABASE area of
                        Some i \<Rightarrow> i
                      | None \<Rightarrow> \<lparr>estado = ''??'', regiao = Desconhecida\<rparr>)
      in case reply of
           Some a \<Rightarrow> Inr (api_operadora a, api_cidade a, api_uf a, api_portabilidade a)
         | None \<Rightarrow>
             (case getitem partes ''prefixo'' of
                Inl e \<Rightarrow> Inl e
              | Inr p \<Rightarrow>
                  (case get_operator_by_prefix area
                          (case map_of partes ''raw_prefixo'' of Some rp \<Rightarrow> rp | None \<Rightarrow> p) kind of
                     Inl e \<Rightarrow> Inl e
                   | Inr carrier \<Rightarrow>
                       Inr (carrier, takeWhile (\<lambda>c. c \<noteq> CHR ''/'') (regiao ddd_info),
                            estado ddd_info, False))))"

text \<open>
  \<open>lookup\<close> in a world: the hash \<open>md5\<close>, the portability service \<open>api\<close>, the clock as
  \<open>load\<close> reads it (\<open>t_load\<close>) and as the new record reads it (\<open>t_info\<close>), and the
  cache directory \<open>files\<close>. It returns the record and the directory after the call, or
  the exception it raises.
\<close>

definition lookup ::
  "(string \<Rightarrow> string) \<Rightarrow> (string \<Rightarrow> api_data option) \<Rightarrow> real \<Rightarrow> real \<Rightarrow> cache_dir \<Rightarrow> string
     \<Rightarrow> py_error + PhoneInfo \<times> cache_dir" where
  "lookup md5 api t_load t_info files phone =
     (case load md5 t_load files phone of
        (Some cached, files1) \<Rightarrow> Inr (cached, files1)
      | (None, files1) \<Rightarrow>
          (case validate phone of
             (valid, kind, partes) \<Rightarrow>
               if \<not> valid then Inr (invalid_info phone, files1)
               else
                 (let api_reply = api phone in
                  case getitem partes ''ddd'' of
                    Inl e \<Rightarrow> Inl e
                  | Inr area \<Rightarrow>
                      (case resolve_fields api_reply partes area kind of
                         Inl e \<Rightarrow> Inl e
                       | Inr (carrier, city, state, ported) \<Rightarrow>
                           (case getitem partes ''prefixo'' of
                              Inl e \<Rightarrow> Inl e
                            | Inr p \<Rightarrow>
                                (case getitem partes ''sufixo'' of
                                   Inl e \<Rightarrow> Inl e
                                 | Inr s \<Rightarrow>
                                     (let info = (PhoneInfo_init phone area p s)
                                            \<lparr>operadora := carrier, cidade := city, uf := state,
                                             tipo := kind, valido := True,
                                             portabilidade := ported,
                                             consulta_ts := int_of_time t_info\<rparr>
                                      in Inr (info, save md5 files1 phone info))))))))"

section \<open>Strings that do not encode\<close>

text \<open>
  A Python \<open>str\<close> can also hold lone surrogates (U+D800 .. U+DFFF): \<open>sys.argv\<close> delivers one
  for every byte of the command line that does not decode, and the \<open>__main__\<close> block passes
  \<open>sys.argv[1]\<close> to \<open>lookup\<close> as it is. A \<open>pystr\<close> is a \<open>str\<close> of code points below 256 and
  lone surrogates, the surrogate given by its code point.
\<close>

datatype pychar = Latin char | Surrogate nat

type_synonym pystr = "pychar list"

text \<open>
  \<open>phone.encode()\<close>: \<open>UnicodeEncodeError\<close> at the first lone surrogate. A \<open>str\<close> without
  one is a \<open>string\<close> of the model above, which stands for its own UTF-8 bytes under the
  parameter \<open>md5\<close>.
\<close>

fun encode :: "pystr \<Rightarrow> py_error + string" where
  "encode [] = Inr []"
| "encode (Latin c # cs) = (case encode cs of Inl e \<Rightarrow> Inl e | Inr s \<Rightarrow> Inr (c # s))"
| "encode (Surrogate n # cs) = Inl UnicodeEncodeError"

definition get_key_str :: "(string \<Rightarrow> string) \<Rightarrow> pystr \<Rightarrow> py_error + string" where
  "get_key_str md5 phone = (case encode phone of Inl e \<Rightarrow> Inl e | Inr s \<Rightarrow> Inr (md5 s))"

text \<open>
  \<open>re.sub(r'\D', '', phone)\<close> on a \<open>pystr\<close>: a lone surrogate is not a digit and is
  dropped like every other non-digit. \<open>validate\<close> reads its argument only there (in
  \<open>normalize\<close>), and the digits are a \<open>string\<close> that this substitution leaves unchanged.
\<close>

fun digits_str :: "pystr \<Rightarrow> string" where
  "digits_str [] = []"
| "digits_str (Latin c # cs) = (if is_digit c then c # digits_str cs else digits_str cs)"
| "digits_str (Surrogate n # cs) = digits_str cs"

definition validate_str :: "pystr \<Rightarrow> bool \<times> string \<times> parts" where
  "validate_str phone = validate (digits_str phone)"

text \<open>
  \<open>lookup\<close> on a \<open>pystr\<close>. Its first statement is \<open>CacheManager.load(phone)\<close>, whose first
  statement computes \<open>get_key(phone)\<close> before the \<open>try\<close>: when the string does not encode,
  the exception leaves \<open>load\<close> and \<open>lookup\<close>. When it encodes, it is a \<open>string\<close> and
  \<open>lookup\<close> goes on as modelled above.
\<close>

definition lookup_str ::
  "(string \<Rightarrow> string) \<Rightarrow> (string \<Rightarrow> api_data option) \<Rightarrow> real \<Rightarrow> real \<Rightarrow> cache_dir \<Rightarrow> pystr
     \<Rightarrow> py_error + PhoneInfo \<times> cache_dir" where
  "lookup_str md5 api t_load t_info files phone =
     (case get_key_str md5 phone of
        Inl e \<Rightarrow> Inl e
      | Inr cache_key \<Rightarrow>
          (case encode phone of
             Inl e \<Rightarrow> Inl e
           | Inr s \<Rightarrow> lookup md5 api t_load t_info files s))"

section \<open>Notions used to state the properties\<close>

text \<open>
  The cache directory as \<open>lookup\<close> leaves it: every readable file lies under the key of
  the number recorded in it, and holds a valid record of a number that \<open>validate\<close>
  accepts. The empty directory is such a directory, and \<open>lookup\<close> keeps it one.
\<close>

definition cache_inv :: "(string \<Rightarrow> string) \<Rightarrow> cache_dir \<Rightarrow> bool" where
  "cache_inv md5 files \<longleftrightarrow>
     (\<forall>k r. files k = Some (Snapshot r) \<longrightarrow>
        k = get_key md5 (numero r) \<and> valido r \<and> fst (validate (numero r)))"

text \<open>The portability service when it cannot be reached: no reply for any number.\<close>

definition offline :: "string \<Rightarrow> api_data option" where
  "offline phone = None"

text \<open>
  The record \<open>lookup\<close> composes for \<open>83993437321\<close> at the time \<open>ts\<close> when the service
  gives no reply.
\<close>

definition example_info :: "int \<Rightarrow> PhoneInfo" where
  "example_info ts =
     \<lparr>numero = ''83993437321'', ddd = ''83'', prefixo = ''9343'', sufixo = ''7321'',
      operadora = Desconhecida, cidade = ''Jo'' @ [CHR 0xE3] @ ''o Pessoa'', uf = ''PB'',
      tipo = MOVEL, latitude = None, longitude = None, consulta_ts = ts, valido = True,
      portabilidade = False\<rparr>"

text \<open>
  The resolution rule in the words of the specification, as a second definition to be
  compared with \<open>get_operator_by_prefix\<close>: a specification with a \<open>-\<close> is a range
  \<open>lo-hi\<close> and matches when the value of the first two digits of the raw prefix lies
  between the bounds, any other specification matches when the raw prefix starts with
  it; the answer is the first carrier, in table order, with a matching specification,
  and \<open>Desconhecida\<close> when the kind is not mobile, the area code or the family is absent,
  or no carrier matches.
\<close>

definition claim_spec_matches :: "string \<Rightarrow> string \<Rightarrow> bool" where
  "claim_spec_matches pfx spec =
     (if CHR ''-'' \<in> set spec then
        (case split_on (CHR ''-'') spec of
           [lo, hi] \<Rightarrow>
             dec_value lo \<le> dec_value (take 2 pfx) \<and> dec_value (take 2 pfx) \<le> dec_value hi
         | _ \<Rightarrow> False)
      else take (length spec) pfx = spec)"

definition claim_resolve :: "string \<Rightarrow> string \<Rightarrow> string \<Rightarrow> string" where
  "claim_resolve area pfx kind =
     (if kind \<noteq> MOVEL then Desconhecida
      else case map_of OPERATOR_PREFIXES area of
             None \<Rightarrow> Desconhecida
           | Some families \<Rightarrow>
               (case map_of families (take 1 pfx) of
                  None \<Rightarrow> Desconhecida
                | Some carriers \<Rightarrow>
                    (case find (\<lambda>(name, specs). list_ex (claim_spec_matches pfx) specs) carriers of
                       None \<Rightarrow> Desconhecida
                     | Some (name, specs) \<Rightarrow> name)))"

text \<open>A range specification of the table is well formed: two non-empty digit strings.\<close>

definition range_spec_ok :: "string \<Rightarrow> bool" where
  "range_spec_ok spec \<longleftrightarrow>
     (if CHR ''-'' \<in> set spec then
        (case split_on (CHR ''-'') spec of
           [lo, hi] \<Rightarrow> lo \<noteq> [] \<and> list_all is_digit lo \<and> hi \<noteq> [] \<and> list_all is_digit hi
         | _ \<Rightarrow> False)
      else True)"

section \<open>Properties of the regular expressions\<close>

lemma match_group_sound:
  "match_group ks s = Some (g, r) \<Longrightarrow> s = g @ r \<and> length g = length ks"
  by (induction ks s arbitrary: g r rule: match_group.induct)
     (auto split: if_splits option.splits)

lemma match_groups_length:
  "match_groups p s = Some caps \<Longrightarrow>
     length s = sum_list (map length p) \<or> (length s = Suc (sum_list (map length p)) \<and> last s = CHR 0x0A)"
proof (induction p arbitrary: s caps)
  case Nil
  then show ?case by (auto split: if_splits)
next
  case (Cons g gs)
  from Cons.prems obtain cap r caps' where
    mg: "match_group g s = Some (cap, r)" and mgs: "match_groups gs r = Some caps'"
    by (auto split: option.splits)
  from match_group_sound [OF mg] have s: "s = cap @ r" and l: "length cap = length g" by auto
  from Cons.IH [OF mgs] show ?case
  proof
    assume "length r = sum_list (map length gs)"
    with s l show ?thesis by simp
  next
    assume a: "length r = Suc (sum_list (map length gs)) \<and> last r = CHR 0x0A"
    then have "r \<noteq> []" by auto
    with a s l show ?thesis by simp
  qed
qed

section \<open>Properties of \<open>normalize\<close>\<close>

lemma normalize_Some_digits:
  "normalize phone = Some d \<Longrightarrow> list_all is_digit d \<and> (length d = 10 \<or> length d = 11)"
  by (auto simp: normalize_def Let_def list_all_iff split: if_splits dest: in_set_dropD)

lemma newline_not_digit: "\<not> is_digit (CHR 0x0A)"
  by (simp add: is_digit_def)

lemma digits_last_not_newline:
  "list_all is_digit d \<Longrightarrow> d \<noteq> [] \<Longrightarrow> last d \<noteq> CHR 0x0A"
  using newline_not_digit by (auto simp: list_all_iff dest: last_in_set)

lemma re_match_length:
  "list_all is_digit d \<Longrightarrow> re_match p d = Some m \<Longrightarrow> length d = sum_list (map length p)"
  using match_groups_length [of p d m] digits_last_not_newline [of d]
  by (cases "d = []") (auto simp: re_match_def)

lemma normalize_fixpoint_iff:
  "normalize s = Some s \<longleftrightarrow>
     list_all is_digit s \<and> (length s = 10 \<or> length s = 11) \<and> \<not> (length s = 11 \<and> s ! 0 = CHR ''0'')"
proof
  assume a: "normalize s = Some s"
  from normalize_Some_digits [OF a] have dg: "list_all is_digit s" and len: "length s = 10 \<or> length s = 11"
    by auto
  from dg have f: "filter is_digit s = s" by (simp add: list_all_iff)
  have "\<not> (length s = 11 \<and> s ! 0 = CHR ''0'')"
  proof
    assume b: "length s = 11 \<and> s ! 0 = CHR ''0''"
    with a f have "drop 1 s = s" by (simp add: normalize_def)
    then have "length (drop 1 s) = length s" by simp
    with b show False by simp
  qed
  with dg len show "list_all is_digit s \<and> (length s = 10 \<or> length s = 11) \<and> \<not> (length s = 11 \<and> s ! 0 = CHR ''0'')"
    by simp
next
  assume a: "list_all is_digit s \<and> (length s = 10 \<or> length s = 11) \<and> \<not> (length s = 11 \<and> s ! 0 = CHR ''0'')"
  then have f: "filter is_digit s = s" by (simp add: list_all_iff)
  with a show "normalize s = Some s" by (auto simp: normalize_def)
qed

lemma normalize_result_fixpoint:
  assumes "normalize phone = Some d"
  shows "normalize d = Some d"
proof -
  let ?f = "filter is_digit phone"
  from normalize_Some_digits [OF assms] have dg: "list_all is_digit d" and len: "length d = 10 \<or> length d = 11"
    by auto
  have "\<not> (length d = 11 \<and> d ! 0 = CHR ''0'')"
  proof
    assume b: "length d = 11 \<and> d ! 0 = CHR ''0''"
    show False
    proof (cases "length ?f = 11 \<and> ?f ! 0 = CHR ''0''")
      case True
      with assms have "d = drop 1 ?f" by (simp add: normalize_def)
      with True b show False by simp
    next
      case False
      with assms have "d = ?f" by (auto simp: normalize_def Let_def split: if_splits)
      with False b show False by simp
    qed
  qed
  with dg len show ?thesis by (simp add: normalize_fixpoint_iff)
qed

text \<open>
  Claim C7. \<open>normalize\<close> strips every non-digit character. When exactly 11 digits remain
  and the first is \<open>0\<close>, it drops that digit and returns the other ten. Otherwise it
  returns the digits when there are 10 or 11 of them, and signals invalid (\<open>None\<close>) for
  any other count.
\<close>

theorem normalize_by_digit_count:
  "(length (filter is_digit phone) = 11 \<and> hd (filter is_digit phone) = CHR ''0''
      \<longrightarrow> normalize phone = Some (tl (filter is_digit phone))) \<and>
   ((length (filter is_digit phone) = 10 \<or> length (filter is_digit phone) = 11) \<and>
    \<not> (length (filter is_digit phone) = 11 \<and> hd (filter is_digit phone) = CHR ''0'')
      \<longrightarrow> normalize phone = Some (filter is_digit phone)) \<and>
   (length (filter is_digit phone) \<noteq> 10 \<and> length (filter is_digit phone) \<noteq> 11
      \<longrightarrow> normalize phone = None) \<and>
   (\<forall>d. normalize phone = Some d \<longrightarrow> length d = 10 \<or> length d = 11)"
proof -
  let ?d = "filter is_digit phone"
  have hd0: "length ?d = 11 \<Longrightarrow> ?d ! 0 = hd ?d"
    by (cases ?d) simp_all
  have a: "length ?d = 11 \<and> hd ?d = CHR ''0'' \<longrightarrow> normalize phone = Some (tl ?d)"
    using hd0 by (simp add: normalize_def drop_Suc)
  have b: "(length ?d = 10 \<or> length ?d = 11) \<and> \<not> (length ?d = 11 \<and> hd ?d = CHR ''0'')
             \<longrightarrow> normalize phone = Some ?d"
    using hd0 by (auto simp: normalize_def)
  have c: "length ?d \<noteq> 10 \<and> length ?d \<noteq> 11 \<longrightarrow> normalize phone = None"
    by (auto simp: normalize_def Let_def)
  have d: "\<forall>d. normalize phone = Some d \<longrightarrow> length d = 10 \<or> length d = 11"
    using normalize_Some_digits by blast
  from a b c d show ?thesis by blast
qed

theorem normalize_by_digit_count_witness:
  "normalize ''0 (83) 9934-3732'' = Some ''8399343732'' \<and>
   normalize ''(83) 99343-7321'' = Some ''83993437321'' \<and>
   normalize ''83-9934'' = None"
  using normalize_by_digit_count [of "''0 (83) 9934-3732''"]
        normalize_by_digit_count [of "''(83) 99343-7321''"]
        normalize_by_digit_count [of "''83-9934''"]
  by (simp add: is_digit_def)

text \<open>
  Claim C8, as the code has it. \<open>083993437321\<close> has 12 digits, and the leading \<open>0\<close> is
  dropped only from inputs of exactly 11 digits: the code signals invalid for it, where
  the claim expects \<open>83993437321\<close>.
\<close>

theorem normalize_twelve_digits_counterexample:
  "\<not> (normalize ''083993437321'' = Some ''83993437321'')"
  by (simp add: normalize_def is_digit_def)

text \<open>
  Claim C8, amended. \<open>normalize\<close> signals invalid for the 12-digit \<open>083993437321\<close>;
  it drops the leading \<open>0\<close> of the 11-digit \<open>08399343732\<close> and returns
  \<open>8399343732\<close>; and it signals invalid for \<open>123\<close>.
\<close>

theorem normalize_examples:
  "normalize ''083993437321'' = None \<and>
   normalize ''08399343732'' = Some ''8399343732'' \<and>
   normalize ''123'' = None"
  by (simp add: normalize_def is_digit_def)

text \<open>
  Claim C10. \<open>normalize\<close> is idempotent on its successes: when it returns \<open>d\<close>, it
  returns \<open>d\<close> again on \<open>d\<close>. Equivalently, \<open>d\<close> consists of digits only, has length
  10 or 11, and is not an 11-digit string that begins with \<open>0\<close>; these three conditions
  are exactly the strings that \<open>normalize\<close> returns unchanged.
\<close>

theorem normalize_idempotent:
  assumes "normalize phone = Some d"
  shows "normalize d = Some d \<and>
         list_all is_digit d \<and> (length d = 10 \<or> length d = 11) \<and>
         \<not> (length d = 11 \<and> d ! 0 = CHR ''0'') \<and>
         (\<forall>s. normalize s = Some s \<longleftrightarrow>
                list_all is_digit s \<and> (length s = 10 \<or> length s = 11) \<and>
                \<not> (length s = 11 \<and> s ! 0 = CHR ''0''))"
proof -
  have again: "normalize d = Some d"
    using assms by (rule normalize_result_fixpoint)
  with normalize_fixpoint_iff [of d] normalize_fixpoint_iff show ?thesis
    by blast
qed

theorem normalize_idempotent_witness:
  "normalize ''0 (83) 9934-3732'' = Some ''8399343732'' \<and>
   normalize ''8399343732'' = Some ''8399343732'' \<and>
   list_all is_digit ''8399343732'' \<and> length ''8399343732'' = 10"
proof -
  have h: "normalize ''0 (83) 9934-3732'' = Some ''8399343732''"
    by (simp add: normalize_def is_digit_def)
  from normalize_idempotent [OF h] h show ?thesis
    by simp
qed

section \<open>Properties of \<open>validate\<close>\<close>

lemma length_11_explicit:
  "length s = 11 \<Longrightarrow> \<exists>a b c d e f g h i j k. s = [a, b, c, d, e, f, g, h, i, j, k]"
  by (auto simp: numeral_eq_Suc length_Suc_conv)

lemma validate_mobile_parts:
  assumes canon: "normalize s = Some s" and len: "length s = 11" and nine: "s ! 2 = CHR ''9''"
  shows "validate s =
           (True, MOVEL,
            [(''ddd'', take 2 s),
             (''prefixo'', drop 1 (take 5 (drop 2 s))),
             (''sufixo'', drop 7 s),
             (''raw_prefixo'', take 5 (drop 2 s))])"
proof -
  from length_11_explicit [OF len] obtain a b c d e f g h i j k
    where s: "s = [a, b, c, d, e, f, g, h, i, j, k]" by blast
  from normalize_Some_digits [OF canon] s have dg:
    "is_digit a" "is_digit b" "is_digit c" "is_digit d" "is_digit e" "is_digit f"
    "is_digit g" "is_digit h" "is_digit i" "is_digit j" "is_digit k"
    by simp_all
  from nine s have c: "c = CHR ''9''" by simp
  have m: "re_match pattern_mobile s = Some [[a, b], [c, d, e, f, g], [h, i, j, k]]"
    using dg c by (simp add: s re_match_def pattern_mobile_def numeral_eq_Suc)
  show ?thesis
    using canon c by (simp add: validate_def m group_def) (simp add: s)
qed

text \<open>
  Claim C2. For every canonical number (a string that \<open>normalize\<close> returns unchanged) of
  length 11 whose digit at index 2 is \<open>9\<close>, \<open>validate\<close> returns Mobile with the area
  code the first 2 digits, the raw prefix the 5 digits at indices 2 to 6 (it begins with
  \<open>9\<close>), the prefix that group without its leading \<open>9\<close> (4 digits) and the suffix the
  last 4 digits. For \<open>83993437321\<close> these are \<open>83\<close>, \<open>99343\<close>, \<open>9343\<close> and \<open>7321\<close>.
\<close>

theorem validate_mobile:
  assumes canon: "normalize s = Some s" and len: "length s = 11" and nine: "s ! 2 = CHR ''9''"
  shows "validate s =
           (True, MOVEL,
            [(''ddd'', take 2 s),
             (''prefixo'', drop 1 (take 5 (drop 2 s))),
             (''sufixo'', drop 7 s),
             (''raw_prefixo'', take 5 (drop 2 s))]) \<and>
         length (take 2 s) = 2 \<and>
         length (take 5 (drop 2 s)) = 5 \<and> hd (take 5 (drop 2 s)) = CHR ''9'' \<and>
         length (drop 1 (take 5 (drop 2 s))) = 4 \<and>
         length (drop 7 s) = 4 \<and>
         validate ''83993437321'' =
           (True, MOVEL,
            [(''ddd'', ''83''), (''prefixo'', ''9343''), (''sufixo'', ''7321''),
             (''raw_prefixo'', ''99343'')])"
proof -
  from length_11_explicit [OF len] obtain a b c d e f g h i j k
    where s: "s = [a, b, c, d, e, f, g, h, i, j, k]" by blast
  from nine s have c: "c = CHR ''9''" by simp
  have l: "length (take 2 s) = 2 \<and> length (take 5 (drop 2 s)) = 5 \<and>
           hd (take 5 (drop 2 s)) = CHR ''9'' \<and> length (drop 1 (take 5 (drop 2 s))) = 4 \<and>
           length (drop 7 s) = 4"
    using c by (simp add: s)
  have ex: "validate ''83993437321'' =
           (True, MOVEL,
            [(''ddd'', ''83''), (''prefixo'', ''9343''), (''sufixo'', ''7321''),
             (''raw_prefixo'', ''99343'')])"
    by (simp add: validate_def normalize_def is_digit_def re_match_def pattern_mobile_def
          group_def numeral_eq_Suc)
  from validate_mobile_parts [OF canon len nine] l ex show ?thesis by simp
qed

theorem validate_mobile_witness:
  "normalize ''11987654321'' = Some ''11987654321'' \<and>
   validate ''11987654321'' =
     (True, MOVEL,
      [(''ddd'', ''11''), (''prefixo'', ''8765''), (''sufixo'', ''4321''),
       (''raw_prefixo'', ''98765'')])"
proof -
  have h: "normalize ''11987654321'' = Some ''11987654321''"
    by (simp add: normalize_def is_digit_def)
  from validate_mobile [OF h] h show ?thesis
    by simp
qed

text \<open>
  No input is ever classified as a landline: the landline pattern matches 10 characters
  and is tried only on 11 digits, the short pattern matches 9 characters and is tried
  only on 10 digits.
\<close>

lemma validate_never_FIXO: "fst (snd (validate phone)) \<noteq> FIXO"
proof (cases "normalize phone")
  case None
  then show ?thesis by (simp add: validate_def formato_invalido_def FIXO_def)
next
  case (Some d)
  from normalize_Some_digits [OF Some] have dg: "list_all is_digit d" and len: "length d = 10 \<or> length d = 11" by auto
  have l: "re_match pattern_landline d = Some m \<Longrightarrow> length d = 10" for m
    using re_match_length [OF dg, of pattern_landline m] by (simp add: pattern_landline_def)
  have s: "re_match pattern_short d = Some m \<Longrightarrow> length d = 9" for m
    using re_match_length [OF dg, of pattern_short m] by (simp add: pattern_short_def)
  have nf: "MOVEL \<noteq> FIXO" "formato_invalido \<noteq> FIXO" "formato_nao_reconhecido \<noteq> FIXO"
    by (simp_all add: MOVEL_def FIXO_def formato_invalido_def formato_nao_reconhecido_def)
  show ?thesis
    using Some l s nf
    by (auto simp: validate_def not_recognised_def split: option.splits)
qed

text \<open>
  Claim C1, evaluated on the code. The canonical \<open>1132345678\<close> (length 10, digit at
  index 2 is \<open>3\<close>) and the canonical \<open>11323456789\<close> (length 11, digit at index 2 is
  \<open>3\<close>) are both rejected as not recognised, where the claim expects Landline.
\<close>

theorem validate_landline_rejected:
  "normalize ''1132345678'' = Some ''1132345678'' \<and>
   validate ''1132345678'' = (False, formato_nao_reconhecido, []) \<and>
   normalize ''11323456789'' = Some ''11323456789'' \<and>
   validate ''11323456789'' = (False, formato_nao_reconhecido, [])"
  by (simp add: validate_def normalize_def is_digit_def re_match_def pattern_landline_def
        pattern_short_def not_recognised_def numeral_eq_Suc)

lemma validate_normalized:
  "normalize phone = Some d \<Longrightarrow> validate phone = validate d"
  using normalize_result_fixpoint [of phone d] by (simp add: validate_def)

lemma validate_valid:
  assumes "fst (validate phone)"
  shows "\<exists>d. normalize phone = Some d \<and> length d = 11 \<and> d ! 2 = CHR ''9'' \<and>
             validate phone =
               (True, MOVEL,
                [(''ddd'', take 2 d),
                 (''prefixo'', drop 1 (take 5 (drop 2 d))),
                 (''sufixo'', drop 7 d),
                 (''raw_prefixo'', take 5 (drop 2 d))])"
proof (cases "normalize phone")
  case None
  with assms show ?thesis by (simp add: validate_def)
next
  case (Some d)
  from normalize_Some_digits [OF Some] have dg: "list_all is_digit d" by simp
  have l: "re_match pattern_landline d = Some m \<Longrightarrow> length d = 10" for m
    using re_match_length [OF dg, of pattern_landline m] by (simp add: pattern_landline_def)
  have s: "re_match pattern_short d = Some m \<Longrightarrow> length d = 9" for m
    using re_match_length [OF dg, of pattern_short m] by (simp add: pattern_short_def)
  have mob: "length d = 11 \<and> d ! 2 = CHR ''9''"
    using assms Some l s
    by (auto simp: validate_def not_recognised_def split: option.splits if_splits)
  have fixd: "normalize d = Some d"
    using Some by (rule normalize_result_fixpoint)
  from validate_mobile_parts [OF fixd] mob validate_normalized [OF Some] Some
  show ?thesis by simp
qed

section \<open>Properties of \<open>get_operator_by_prefix\<close>\<close>

lemma get_operator_family_9:
  assumes "take 1 pfx = ''9''"
  shows "\<exists>c. get_operator_by_prefix area pfx kind = Inr c"
proof (cases "map_of OPERATOR_PREFIXES area")
  case None
  then show ?thesis by (simp add: get_operator_by_prefix_def)
next
  case (Some ddd_data)
  then have "area = ''11'' \<or> area = ''83''"
    by (simp add: OPERATOR_PREFIXES_def split: if_splits)
  then show ?thesis
    using assms
    by (auto simp: get_operator_by_prefix_def OPERATOR_PREFIXES_def)
qed

lemma digit_not_space: "is_digit c \<Longrightarrow> \<not> is_space c"
  by (auto simp: is_digit_def is_space_def)

lemma digit_not_sign: "is_digit c \<Longrightarrow> c \<noteq> CHR ''-'' \<and> c \<noteq> CHR ''+'' \<and> c \<noteq> CHR ''_''"
  by (auto simp: is_digit_def)

lemma digits_no_double_underscore: "list_all is_digit v \<Longrightarrow> no_double_underscore v"
  by (induction v rule: no_double_underscore.induct) (auto dest: digit_not_sign)

lemma digits_strip_right:
  assumes "list_all is_digit v"
  shows "rev (dropWhile is_space (rev v)) = v"
proof -
  from assms have "\<forall>c \<in> set (rev v). \<not> is_space c"
    by (auto simp: list_all_iff dest: digit_not_space)
  then have "dropWhile is_space (rev v) = rev v"
    by (cases "rev v") auto
  then show ?thesis by simp
qed

lemma py_int_digits:
  assumes ne: "v \<noteq> []" and dg: "list_all is_digit v"
  shows "py_int v = Some (dec_value v)"
proof -
  from ne obtain c cs where v: "v = c # cs" by (cases v) auto
  with dg have c: "is_digit c" by simp
  have left: "dropWhile is_space v = v"
    using c v by (simp add: digit_not_space)
  have sign: "take 1 v \<noteq> ''-''" "take 1 v \<noteq> ''+''"
    using c v digit_not_sign [of c] by auto
  have right: "rev (dropWhile is_space (rev v)) = v"
    using dg by (rule digits_strip_right)
  have "is_digit (last v)"
    using ne dg by (auto simp: list_all_iff)
  then have ok: "int_literal_ok v"
    using ne dg c v digits_no_double_underscore [OF dg]
    by (auto simp: int_literal_ok_def list_all_iff)
  have plain: "filter (\<lambda>c. c \<noteq> CHR ''_'') v = v"
    using dg by (auto simp: list_all_iff filter_id_conv dest: digit_not_sign)
  show ?thesis
    using sign by (simp add: py_int_def left right ok plain)
qed

lemma parse_range_ok:
  assumes "range_spec_ok spec" and "CHR ''-'' \<in> set spec"
  shows "\<exists>lo hi. split_on (CHR ''-'') spec = [lo, hi] \<and>
                 parse_range spec = Inr (dec_value lo, dec_value hi)"
proof -
  from assms obtain lo hi where
    sp: "split_on (CHR ''-'') spec = [lo, hi]" and
    lo: "lo \<noteq> []" "list_all is_digit lo" and hi: "hi \<noteq> []" "list_all is_digit hi"
    by (auto simp: range_spec_ok_def split: list.splits)
  from sp py_int_digits [OF lo] py_int_digits [OF hi] show ?thesis
    by (simp add: parse_range_def)
qed

lemma match_prefixos_claim:
  assumes ne: "pfx \<noteq> []" and dg: "list_all is_digit (take 2 pfx)"
  shows "list_all range_spec_ok specs \<Longrightarrow>
         match_prefixos pfx specs = Inr (list_ex (claim_spec_matches pfx) specs)"
proof (induction specs)
  case Nil
  show ?case by simp
next
  case (Cons spec rest)
  then have ok: "range_spec_ok spec" and
    ih: "match_prefixos pfx rest = Inr (list_ex (claim_spec_matches pfx) rest)"
    by simp_all
  from ne have "take 2 pfx \<noteq> []" by (cases pfx) auto
  from py_int_digits [OF this dg] have n: "py_int (take 2 pfx) = Some (dec_value (take 2 pfx))" .
  show ?case
  proof (cases "CHR ''-'' \<in> set spec")
    case True
    from parse_range_ok [OF ok True] obtain lo hi where
      sp: "split_on (CHR ''-'') spec = [lo, hi]" and
      pr: "parse_range spec = Inr (dec_value lo, dec_value hi)"
      by blast
    from True sp have m: "claim_spec_matches pfx spec =
        (dec_value lo \<le> dec_value (take 2 pfx) \<and> dec_value (take 2 pfx) \<le> dec_value hi)"
      by (simp add: claim_spec_matches_def)
    from True n ih pr m show ?thesis
      by auto
  next
    case False
    then have m: "claim_spec_matches pfx spec = (take (length spec) pfx = spec)"
      by (simp add: claim_spec_matches_def)
    from False ih m show ?thesis
      by auto
  qed
qed

lemma scan_operadores_claim:
  assumes ne: "pfx \<noteq> []" and dg: "list_all is_digit (take 2 pfx)"
  shows "list_all (\<lambda>(name, specs). list_all range_spec_ok specs) carriers \<Longrightarrow>
         scan_operadores pfx carriers =
           Inr (map_option fst
                  (find (\<lambda>(name, specs). list_ex (claim_spec_matches pfx) specs) carriers))"
proof (induction carriers)
  case Nil
  show ?case by simp
next
  case (Cons carrier rest)
  obtain name specs where carrier: "carrier = (name, specs)" by (cases carrier)
  with Cons have ok: "list_all range_spec_ok specs" and
    ih: "scan_operadores pfx rest =
           Inr (map_option fst
                  (find (\<lambda>(name, specs). list_ex (claim_spec_matches pfx) specs) rest))"
    by simp_all
  from match_prefixos_claim [OF ne dg ok] ih carrier show ?case
    by simp
qed

lemma operator_table_ok:
  "list_all (\<lambda>(area, families).
      list_all (\<lambda>(family, carriers).
        list_all (\<lambda>(name, specs). list_all range_spec_ok specs) carriers) families)
     OPERATOR_PREFIXES"
  by (simp add: OPERATOR_PREFIXES_def range_spec_ok_def is_digit_def)

lemma operator_family_ok:
  assumes "map_of OPERATOR_PREFIXES area = Some families"
    and "map_of families family = Some carriers"
  shows "list_all (\<lambda>(name, specs). list_all range_spec_ok specs) carriers"
proof -
  from assms(1) have "(area, families) \<in> set OPERATOR_PREFIXES" by (rule map_of_SomeD)
  with operator_table_ok have
    "list_all (\<lambda>(family, carriers).
        list_all (\<lambda>(name, specs). list_all range_spec_ok specs) carriers) families"
    by (fastforce simp: list_all_iff)
  moreover from assms(2) have "(family, carriers) \<in> set families" by (rule map_of_SomeD)
  ultimately show ?thesis by (fastforce simp: list_all_iff)
qed

text \<open>
  Claim C6. \<open>get_operator_by_prefix\<close> returns \<open>Desconhecida\<close> whenever the kind is not
  mobile, or the area code is absent from the table, or the family keyed by the first
  character of the raw prefix is absent. For a raw prefix whose first two characters are
  digits it returns what the rule of the specification gives: the first carrier in table
  order with a matching specification, where an exact specification matches when the raw
  prefix starts with it and a range \<open>lo-hi\<close> matches when the value of the first two
  digits lies between \<open>lo\<close> and \<open>hi\<close>, and \<open>Desconhecida\<close> when no carrier matches.
\<close>

theorem get_operator_by_prefix_resolves:
  "(kind \<noteq> MOVEL \<or> map_of OPERATOR_PREFIXES area = None \<or>
    (\<exists>families. map_of OPERATOR_PREFIXES area = Some families \<and>
                 map_of families (take 1 pfx) = None)
      \<longrightarrow> get_operator_by_prefix area pfx kind = Inr Desconhecida) \<and>
   (list_all is_digit (take 2 pfx)
      \<longrightarrow> get_operator_by_prefix area pfx kind = Inr (claim_resolve area pfx kind))"
proof -
  have unknown: "get_operator_by_prefix area pfx kind = Inr Desconhecida"
    if "kind \<noteq> MOVEL \<or> map_of OPERATOR_PREFIXES area = None \<or>
        (\<exists>families. map_of OPERATOR_PREFIXES area = Some families \<and>
                     map_of families (take 1 pfx) = None)"
    using that by (auto simp: get_operator_by_prefix_def split: option.splits)
  have resolved: "get_operator_by_prefix area pfx kind = Inr (claim_resolve area pfx kind)"
    if dg: "list_all is_digit (take 2 pfx)"
  proof (cases "map_of OPERATOR_PREFIXES area")
    case None
    then show ?thesis by (simp add: get_operator_by_prefix_def claim_resolve_def)
  next
    case (Some families)
    show ?thesis
    proof (cases "kind = MOVEL")
      case False
      with Some show ?thesis by (simp add: get_operator_by_prefix_def claim_resolve_def)
    next
      case True
      show ?thesis
      proof (cases "map_of families (take 1 pfx)")
        case None
        with Some True show ?thesis by (simp add: get_operator_by_prefix_def claim_resolve_def)
      next
        case (Some carriers)
        have ne: "pfx \<noteq> []"
        proof
          assume "pfx = []"
          with Some \<open>map_of OPERATOR_PREFIXES area = Some families\<close> show False
            by (auto simp: OPERATOR_PREFIXES_def split: if_splits)
        qed
        from operator_family_ok [OF \<open>map_of OPERATOR_PREFIXES area = Some families\<close> Some]
        have ok: "list_all (\<lambda>(name, specs). list_all range_spec_ok specs) carriers" .
        from scan_operadores_claim [OF ne dg ok] Some True
          \<open>map_of OPERATOR_PREFIXES area = Some families\<close>
        show ?thesis
          by (auto simp: get_operator_by_prefix_def claim_resolve_def split: option.splits)
      qed
    qed
  qed
  from unknown resolved show ?thesis by blast
qed

theorem get_operator_by_prefix_resolves_witness:
  "get_operator_by_prefix ''83'' ''96343'' MOVEL = Inr ''VIVO'' \<and>
   get_operator_by_prefix ''11'' ''32'' MOVEL = Inr ''VIVO'' \<and>
   get_operator_by_prefix ''11'' ''32'' FIXO = Inr Desconhecida"
proof -
  have d1: "list_all is_digit (take 2 ''96343'')" and d2: "list_all is_digit (take 2 ''32'')"
    by (simp_all add: is_digit_def)
  have k: "FIXO \<noteq> MOVEL"
    by (simp add: FIXO_def MOVEL_def)
  have r1: "claim_resolve ''83'' ''96343'' MOVEL = ''VIVO''"
    by (simp add: claim_resolve_def OPERATOR_PREFIXES_def claim_spec_matches_def)
  have r2: "claim_resolve ''11'' ''32'' MOVEL = ''VIVO''"
    by (simp add: claim_resolve_def OPERATOR_PREFIXES_def claim_spec_matches_def dec_value_def
          digit_val_def)
  from get_operator_by_prefix_resolves [of MOVEL "''83''" "''96343''"]
       get_operator_by_prefix_resolves [of MOVEL "''11''" "''32''"]
       get_operator_by_prefix_resolves [of FIXO "''11''" "''32''"]
       d1 d2 k r1 r2
  show ?thesis by simp
qed

section \<open>Properties of the cache and of \<open>lookup\<close>\<close>

lemma load_None:
  "files (get_key md5 phone) = None \<Longrightarrow> load md5 now files phone = (None, files)"
  by (simp add: load_def)

lemma load_Unreadable:
  "files (get_key md5 phone) = Some Unreadable \<Longrightarrow> load md5 now files phone = (None, files)"
  by (simp add: load_def)

lemma load_expired:
  "files (get_key md5 phone) = Some (Snapshot data) \<Longrightarrow>
   now - of_int (consulta_ts data) > of_int CACHE_TTL \<Longrightarrow>
   load md5 now files phone = (None, files(get_key md5 phone := None))"
  by (simp add: load_def)

lemma load_fresh:
  "files (get_key md5 phone) = Some (Snapshot data) \<Longrightarrow>
   now - of_int (consulta_ts data) \<le> of_int CACHE_TTL \<Longrightarrow>
   load md5 now files phone = (Some data, files)"
  by (simp add: load_def)

lemma load_Some_D:
  "load md5 now files phone = (Some data, files1) \<Longrightarrow>
   files (get_key md5 phone) = Some (Snapshot data) \<and> files1 = files \<and>
   now - of_int (consulta_ts data) \<le> of_int CACHE_TTL"
  by (auto simp: load_def Let_def split: option.splits cache_file.splits if_splits)

lemma load_None_D:
  "load md5 now files phone = (None, files1) \<Longrightarrow>
   files1 = files \<or> files1 = files(get_key md5 phone := None)"
  by (auto simp: load_def Let_def split: option.splits cache_file.splits if_splits)

lemma lookup_hit:
  "load md5 t_load files phone = (Some data, files1) \<Longrightarrow>
   lookup md5 api t_load t_info files phone = Inr (data, files1)"
  by (simp add: lookup_def)

lemma lookup_miss_invalid:
  "load md5 t_load files phone = (None, files1) \<Longrightarrow> \<not> fst (validate phone) \<Longrightarrow>
   lookup md5 api t_load t_info files phone = Inr (invalid_info phone, files1)"
  by (cases "validate phone") (auto simp: lookup_def)

lemma raw_prefix_family:
  assumes "length d = 11" and "d ! 2 = CHR ''9''"
  shows "take 1 (take 5 (drop 2 d)) = ''9''"
proof -
  from length_11_explicit [OF assms(1)] obtain a b c e f g h i j k l
    where d: "d = [a, b, c, e, f, g, h, i, j, k, l]" by blast
  with assms(2) show ?thesis by simp
qed

lemma lookup_miss_valid:
  assumes miss: "load md5 t_load files phone = (None, files1)" and valid: "fst (validate phone)"
  shows "\<exists>info. lookup md5 api t_load t_info files phone = Inr (info, save md5 files1 phone info) \<and>
           numero info = phone \<and> valido info \<and> tipo info = MOVEL \<and>
           consulta_ts info = int_of_time t_info"
proof -
  from validate_valid [OF valid] obtain d where
    len: "length d = 11" and nine: "d ! 2 = CHR ''9''" and
    v: "validate phone =
               (True, MOVEL,
                [(''ddd'', take 2 d),
                 (''prefixo'', drop 1 (take 5 (drop 2 d))),
                 (''sufixo'', drop 7 d),
                 (''raw_prefixo'', take 5 (drop 2 d))])"
    by blast
  from get_operator_family_9 [OF raw_prefix_family [OF len nine]] obtain c where
    c: "get_operator_by_prefix (take 2 d) (take 5 (drop 2 d)) MOVEL = Inr c"
    by blast
  show ?thesis
  proof (cases "api phone")
    case None
    then show ?thesis
      using miss v c by (simp add: lookup_def getitem_def resolve_fields_def PhoneInfo_init_def Let_def)
  next
    case (Some a)
    then show ?thesis
      using miss v by (simp add: lookup_def getitem_def resolve_fields_def PhoneInfo_init_def Let_def)
  qed
qed

lemma lookup_total:
  "\<exists>r files'. lookup md5 api t_load t_info files phone = Inr (r, files')"
proof (cases "load md5 t_load files phone")
  case (Pair cached files1)
  show ?thesis
  proof (cases cached)
    case None
    with Pair lookup_miss_invalid [of md5 t_load files phone files1 api t_info]
      lookup_miss_valid [of md5 t_load files phone files1 api t_info]
    show ?thesis by (cases "fst (validate phone)") auto
  next
    case (Some data)
    with Pair lookup_hit [of md5 t_load files phone data files1] show ?thesis by auto
  qed
qed

lemma cache_inv_remove: "cache_inv md5 files \<Longrightarrow> cache_inv md5 (files(k := None))"
  by (simp add: cache_inv_def)

lemma cache_inv_save:
  "cache_inv md5 files \<Longrightarrow> numero info = phone \<Longrightarrow> valido info \<Longrightarrow> fst (validate phone) \<Longrightarrow>
   cache_inv md5 (save md5 files phone info)"
  by (simp add: cache_inv_def save_def)

lemma cache_inv_load:
  "cache_inv md5 files \<Longrightarrow> load md5 now files phone = (cached, files1) \<Longrightarrow> cache_inv md5 files1"
  using load_None_D [of md5 now files phone files1] load_Some_D [of md5 now files phone _ files1]
    cache_inv_remove [of md5 files "get_key md5 phone"]
  by (cases cached) auto

lemma lookup_preserves_inv:
  assumes inv: "cache_inv md5 files"
    and lk: "lookup md5 api t_load t_info files phone = Inr (r, files')"
  shows "cache_inv md5 files'"
proof (cases "load md5 t_load files phone")
  case (Pair cached files1)
  from cache_inv_load [OF inv Pair] have inv1: "cache_inv md5 files1" .
  show ?thesis
  proof (cases cached)
    case (Some data)
    with Pair lk inv1 lookup_hit [of md5 t_load files phone data files1 api t_info] show ?thesis
      by simp
  next
    case None
    show ?thesis
    proof (cases "fst (validate phone)")
      case False
      with Pair None lk inv1 lookup_miss_invalid [of md5 t_load files phone files1 api t_info]
      show ?thesis by simp
    next
      case True
      with Pair None lookup_miss_valid [of md5 t_load files phone files1 api t_info]
      obtain info where
        "lookup md5 api t_load t_info files phone = Inr (info, save md5 files1 phone info)"
        "numero info = phone" "valido info"
        by auto
      with lk True cache_inv_save [OF inv1, of info phone] show ?thesis by auto
    qed
  qed
qed

lemma lookup_other_keys:
  assumes lk: "lookup md5 api t_load t_info files phone = Inr (r, files')"
    and k: "k \<noteq> get_key md5 phone"
  shows "files' k = files k"
proof (cases "load md5 t_load files phone")
  case (Pair cached files1)
  have f1: "files1 k = files k"
    using Pair k load_None_D [of md5 t_load files phone files1]
      load_Some_D [of md5 t_load files phone _ files1]
    by (cases cached) auto
  show ?thesis
  proof (cases cached)
    case (Some data)
    with Pair lk f1 lookup_hit [of md5 t_load files phone data files1 api t_info] show ?thesis
      by simp
  next
    case None
    show ?thesis
    proof (cases "fst (validate phone)")
      case False
      with Pair None lk f1 lookup_miss_invalid [of md5 t_load files phone files1 api t_info]
      show ?thesis by simp
    next
      case True
      with Pair None lookup_miss_valid [of md5 t_load files phone files1 api t_info]
      obtain info where
        "lookup md5 api t_load t_info files phone = Inr (info, save md5 files1 phone info)"
        by auto
      with lk f1 k show ?thesis by (auto simp: save_def)
    qed
  qed
qed

lemma lookup_numero:
  assumes inj: "inj md5" and inv: "cache_inv md5 files"
    and lk: "lookup md5 api t_load t_info files phone = Inr (r, files')"
  shows "numero r = phone"
proof (cases "load md5 t_load files phone")
  case (Pair cached files1)
  show ?thesis
  proof (cases cached)
    case (Some data)
    with Pair load_Some_D [of md5 t_load files phone data files1]
    have "files (get_key md5 phone) = Some (Snapshot data)" by simp
    with inv have "get_key md5 phone = get_key md5 (numero data)"
      by (simp add: cache_inv_def)
    with inj have "numero data = phone" by (simp add: get_key_def inj_eq)
    with Some Pair lk lookup_hit [of md5 t_load files phone data files1 api t_info] show ?thesis
      by simp
  next
    case None
    show ?thesis
    proof (cases "fst (validate phone)")
      case False
      with Pair None lk lookup_miss_invalid [of md5 t_load files phone files1 api t_info]
      show ?thesis by (auto simp: invalid_info_def PhoneInfo_init_def)
    next
      case True
      with Pair None lookup_miss_valid [of md5 t_load files phone files1 api t_info]
      obtain info where
        "lookup md5 api t_load t_info files phone = Inr (info, save md5 files1 phone info)"
        "numero info = phone"
        by auto
      with lk show ?thesis by auto
    qed
  qed
qed

lemma invalid_not_cached:
  assumes invalid: "\<not> fst (validate phone)" and inj: "inj md5" and inv: "cache_inv md5 files"
  shows "files (get_key md5 phone) \<noteq> Some (Snapshot r)"
proof
  assume a: "files (get_key md5 phone) = Some (Snapshot r)"
  with inv have k: "get_key md5 phone = get_key md5 (numero r)" and v: "fst (validate (numero r))"
    by (simp_all add: cache_inv_def)
  from k inj have "numero r = phone" by (simp add: get_key_def inj_eq)
  with v invalid show False by simp
qed

lemma lookup_invalid_unchanged:
  assumes invalid: "\<not> fst (validate phone)" and inj: "inj md5" and inv: "cache_inv md5 files"
  shows "load md5 t_load files phone = (None, files) \<and>
         lookup md5 api t_load t_info files phone = Inr (invalid_info phone, files)"
proof -
  have miss: "load md5 t_load files phone = (None, files)"
  proof (cases "files (get_key md5 phone)")
    case None
    then show ?thesis by (rule load_None)
  next
    case (Some f)
    with invalid_not_cached [OF invalid inj inv] have "f = Unreadable" by (cases f) auto
    with Some show ?thesis by (simp add: load_Unreadable)
  qed
  from miss lookup_miss_invalid [OF miss invalid] show ?thesis by simp
qed

lemma lookup_valid_stored:
  assumes valid: "fst (validate phone)"
    and lk: "lookup md5 api t_load t_info files phone = Inr (r, files')"
  shows "files' (get_key md5 phone) = Some (Snapshot r)"
proof (cases "load md5 t_load files phone")
  case (Pair cached files1)
  show ?thesis
  proof (cases cached)
    case (Some data)
    with Pair lk lookup_hit [of md5 t_load files phone data files1 api t_info]
      load_Some_D [of md5 t_load files phone data files1]
    show ?thesis by auto
  next
    case None
    with Pair valid lookup_miss_valid [of md5 t_load files phone files1 api t_info]
    obtain info where
      "lookup md5 api t_load t_info files phone = Inr (info, save md5 files1 phone info)"
      by auto
    with lk show ?thesis by (auto simp: save_def)
  qed
qed

lemma int_of_time_later:
  assumes "of_int a < t"
  shows "a \<le> int_of_time t"
proof (cases "0 \<le> t")
  case True
  with assms show ?thesis by (simp add: int_of_time_def le_floor_iff)
next
  case False
  from assms have "of_int a \<le> t" by simp
  also have "t \<le> of_int \<lceil>t\<rceil>" by (rule le_of_int_ceiling)
  finally have "a \<le> \<lceil>t\<rceil>" by simp
  with False show ?thesis by (simp add: int_of_time_def)
qed

lemma lookup_after_expiry:
  assumes entry: "files (get_key md5 phone) = Some (Snapshot data)"
    and expired: "now - of_int (consulta_ts data) > of_int CACHE_TTL"
  shows "lookup md5 api now t_info files phone =
         lookup md5 api now t_info (files(get_key md5 phone := None)) phone"
proof -
  have "load md5 now (files(get_key md5 phone := None)) phone =
        (None, files(get_key md5 phone := None))"
    by (simp add: load_def)
  moreover have "load md5 now files phone = (None, files(get_key md5 phone := None))"
    using entry expired by (rule load_expired)
  ultimately show ?thesis
    by (simp add: lookup_def)
qed

subsection \<open>Evaluations used in the examples\<close>

lemma validate_example:
  "validate ''83993437321'' =
     (True, MOVEL,
      [(''ddd'', ''83''), (''prefixo'', ''9343''), (''sufixo'', ''7321''),
       (''raw_prefixo'', ''99343'')])"
  by (simp add: validate_def normalize_def is_digit_def re_match_def pattern_mobile_def
        group_def numeral_eq_Suc)

lemma validate_example_raw:
  "validate ''(83) 99343-7321'' =
     (True, MOVEL,
      [(''ddd'', ''83''), (''prefixo'', ''9343''), (''sufixo'', ''7321''),
       (''raw_prefixo'', ''99343'')])"
  by (simp add: validate_def normalize_def is_digit_def re_match_def pattern_mobile_def
        group_def numeral_eq_Suc)



lemma operator_example: "get_operator_by_prefix ''83'' ''99343'' MOVEL = Inr Desconhecida"
  by (simp add: get_operator_by_prefix_def OPERATOR_PREFIXES_def)

lemma region_example:
  "map_of DDD_DATABASE ''83'' =
     Some \<lparr>estado = ''PB'', regiao = ''Jo'' @ [CHR 0xE3] @ ''o Pessoa/PB''\<rparr>"
  by (simp add: DDD_DATABASE_def)

lemma lookup_example_first:
  "lookup id offline 1000 1002 Map.empty ''83993437321'' =
     Inr (example_info 1002, [''83993437321'' \<mapsto> Snapshot (example_info 1002)])"
  by (simp add: lookup_def load_def get_key_def validate_example offline_def getitem_def
        resolve_fields_def operator_example region_example PhoneInfo_init_def save_def
        int_of_time_def example_info_def Let_def)

lemma lookup_example_raw:
  "lookup id offline 2000 2001 [''83993437321'' \<mapsto> Snapshot (example_info 1002)]
       ''(83) 99343-7321'' =
     Inr ((example_info 2001)\<lparr>numero := ''(83) 99343-7321''\<rparr>,
          [''83993437321'' \<mapsto> Snapshot (example_info 1002),
           ''(83) 99343-7321'' \<mapsto> Snapshot ((example_info 2001)\<lparr>numero := ''(83) 99343-7321''\<rparr>)])"
  by (simp add: lookup_def load_def get_key_def validate_example_raw offline_def getitem_def
        resolve_fields_def operator_example region_example PhoneInfo_init_def save_def
        int_of_time_def example_info_def Let_def)


lemma cache_inv_empty: "cache_inv md5 Map.empty"
  by (simp add: cache_inv_def)

subsection \<open>Idempotence within the TTL\<close>




subsection \<open>Invalid input\<close>

text \<open>
  On the strings that encode, an input that \<open>validate\<close> rejects leaves the cache as it
  is: in a directory written by \<open>lookup\<close> under a hash without collisions, \<open>lookup\<close>
  returns a record with \<open>valido\<close> false, kind \<open>INVALIDO\<close> and empty \<open>ddd\<close>, \<open>prefixo\<close>
  and \<open>sufixo\<close>, the directory after the call is the directory before it, and it holds no
  record under the key of that input.
\<close>

lemma lookup_invalid_encodable:
  assumes invalid: "\<not> fst (validate phone)" and inj: "inj md5" and inv: "cache_inv md5 files"
  shows "lookup md5 api t_load t_info files phone = Inr (invalid_info phone, files) \<and>
         valido (invalid_info phone) = False \<and> tipo (invalid_info phone) = INVALIDO \<and>
         ddd (invalid_info phone) = [] \<and> prefixo (invalid_info phone) = [] \<and>
         sufixo (invalid_info phone) = [] \<and>
         (\<forall>r. files (get_key md5 phone) \<noteq> Some (Snapshot r))"
proof -
  from lookup_invalid_unchanged [OF invalid inj inv]
  have lk: "lookup md5 api t_load t_info files phone = Inr (invalid_info phone, files)"
    by simp
  from invalid_not_cached [OF invalid inj inv]
  have not_cached: "\<forall>r. files (get_key md5 phone) \<noteq> Some (Snapshot r)"
    by simp
  from lk not_cached show ?thesis
    by (simp add: invalid_info_def PhoneInfo_init_def)
qed

lemma encode_Latin: "encode (map Latin s) = Inr s"
  by (induction s) simp_all

lemma encode_Inr_D: "encode phone = Inr s \<Longrightarrow> phone = map Latin s"
proof (induction phone arbitrary: s)
  case Nil
  then show ?case by simp
next
  case (Cons c cs)
  then show ?case
    by (cases c) (auto split: sum.splits)
qed

lemma encode_surrogate: "Surrogate n \<in> set phone \<Longrightarrow> encode phone = Inl UnicodeEncodeError"
proof (induction phone)
  case Nil
  then show ?case by simp
next
  case (Cons c cs)
  show ?case
  proof (cases c)
    case (Latin x)
    with Cons show ?thesis by (cases "encode cs") auto
  next
    case (Surrogate m)
    then show ?thesis by simp
  qed
qed

lemma digits_str_Latin: "digits_str (map Latin s) = filter is_digit s"
  by (induction s) simp_all

lemma validate_digits: "validate (filter is_digit s) = validate s"
  by (simp add: validate_def normalize_def)

lemma validate_str_Latin: "validate_str (map Latin s) = validate s"
  by (simp add: validate_str_def digits_str_Latin validate_digits)

lemma lookup_str_Latin:
  "lookup_str md5 api t_load t_info files (map Latin s) = lookup md5 api t_load t_info files s"
  by (simp add: lookup_str_def get_key_str_def encode_Latin)

text \<open>
  So a string that encodes and that \<open>validate\<close> rejects gets the Invalid record from
  \<open>lookup\<close> on any \<open>str\<close>, and a string with a lone surrogate gets the exception,
  whatever \<open>validate\<close> says of it.
\<close>

lemma lookup_str_invalid_encodable:
  assumes enc: "encode phone = Inr s" and invalid: "\<not> fst (validate_str phone)"
    and inj: "inj md5" and inv: "cache_inv md5 files"
  shows "lookup_str md5 api t_load t_info files phone = Inr (invalid_info s, files)"
proof -
  from encode_Inr_D [OF enc] have phone: "phone = map Latin s" .
  with invalid have "\<not> fst (validate s)" by (simp add: validate_str_Latin)
  from lookup_invalid_unchanged [OF this inj inv] phone show ?thesis
    by (simp add: lookup_str_Latin)
qed

lemma lookup_str_surrogate:
  "Surrogate n \<in> set phone \<Longrightarrow>
   lookup_str md5 api t_load t_info files phone = Inl UnicodeEncodeError"
  by (simp add: lookup_str_def get_key_str_def encode_surrogate)

text \<open>
  Claim C4, evaluated on the code. The string of the one lone surrogate U+DCFF, which
  \<open>sys.argv\<close> holds for the byte \<open>0xFF\<close> on the command line, has no digit:
  \<open>normalize\<close> returns \<open>None\<close> and \<open>validate\<close> rejects it at its first \<open>return\<close>.
  \<open>lookup\<close> raises \<open>UnicodeEncodeError\<close> on it, where the claim expects the Invalid
  record and no error.
\<close>

theorem lookup_raises_on_lone_surrogate:
  "validate_str [Surrogate 0xDCFF] = (False, formato_invalido, []) \<and>
   get_key_str id [Surrogate 0xDCFF] = Inl UnicodeEncodeError \<and>
   lookup_str id offline 1000 1002 Map.empty [Surrogate 0xDCFF] = Inl UnicodeEncodeError"
  by (simp add: validate_str_def validate_def normalize_def lookup_str_def get_key_str_def)

subsection \<open>Expiry\<close>

text \<open>
  Claim C5. \<open>load\<close> is a miss when there is no file for the number, and when the file's
  record is older than 86400 seconds (\<open>now - consulta_ts > 86400\<close>); in the second case
  the file is deleted on that read. A record of exactly that age or younger is a hit.
  Consequently a \<open>lookup\<close> that runs more than 86400 seconds after the cached record's
  \<open>consulta_ts\<close> does what it does with no file at all: for a number that \<open>validate\<close>
  accepts it composes a new record, whose \<open>consulta_ts\<close> is the time of the call and is
  later than the stale one, and stores it in place of the stale record.
\<close>

theorem cache_expiry:
  "(files (get_key md5 phone) = None \<longrightarrow> load md5 now files phone = (None, files)) \<and>
   (files (get_key md5 phone) = Some (Snapshot data) \<and>
    now - of_int (consulta_ts data) \<le> of_int CACHE_TTL
      \<longrightarrow> load md5 now files phone = (Some data, files)) \<and>
   (files (get_key md5 phone) = Some (Snapshot data) \<and>
    now - of_int (consulta_ts data) > of_int CACHE_TTL
      \<longrightarrow> load md5 now files phone = (None, files(get_key md5 phone := None)) \<and>
          lookup md5 api now t_info files phone =
            lookup md5 api now t_info (files(get_key md5 phone := None)) phone \<and>
          (fst (validate phone) \<and> now \<le> t_info
             \<longrightarrow> (\<exists>info. lookup md5 api now t_info files phone =
                          Inr (info, files(get_key md5 phone \<mapsto> Snapshot info)) \<and>
                        numero info = phone \<and> valido info \<and>
                        consulta_ts info = int_of_time t_info \<and>
                        consulta_ts data < consulta_ts info))) \<and>
   CACHE_TTL = 86400"
proof -
  have fresh: "load md5 now files phone = (Some data, files)"
    if "files (get_key md5 phone) = Some (Snapshot data)"
      and "now - of_int (consulta_ts data) \<le> of_int CACHE_TTL"
    using that by (rule load_fresh)
  have stale: "load md5 now files phone = (None, files(get_key md5 phone := None))"
    if "files (get_key md5 phone) = Some (Snapshot data)"
      and "now - of_int (consulta_ts data) > of_int CACHE_TTL"
    using that by (rule load_expired)
  have again: "lookup md5 api now t_info files phone =
               lookup md5 api now t_info (files(get_key md5 phone := None)) phone"
    if "files (get_key md5 phone) = Some (Snapshot data)"
      and "now - of_int (consulta_ts data) > of_int CACHE_TTL"
    using that by (rule lookup_after_expiry)
  have recomputed:
    "\<exists>info. lookup md5 api now t_info files phone =
              Inr (info, files(get_key md5 phone \<mapsto> Snapshot info)) \<and>
            numero info = phone \<and> valido info \<and>
            consulta_ts info = int_of_time t_info \<and>
            consulta_ts data < consulta_ts info"
    if entry: "files (get_key md5 phone) = Some (Snapshot data)"
      and expired: "now - of_int (consulta_ts data) > of_int CACHE_TTL"
      and valid: "fst (validate phone)" and clock: "now \<le> t_info"
  proof -
    have miss: "load md5 now files phone = (None, files(get_key md5 phone := None))"
      using entry expired by (rule load_expired)
    from lookup_miss_valid [OF miss valid, of api t_info]
    obtain info where
      lk: "lookup md5 api now t_info files phone =
             Inr (info, save md5 (files(get_key md5 phone := None)) phone info)"
      and props: "numero info = phone" "valido info" "consulta_ts info = int_of_time t_info"
      by blast
    from expired clock have "of_int (consulta_ts data + CACHE_TTL) < t_info"
      by simp
    from int_of_time_later [OF this] have "consulta_ts data + CACHE_TTL \<le> int_of_time t_info" .
    then have later: "consulta_ts data < int_of_time t_info"
      by (simp add: CACHE_TTL_def)
    have "save md5 (files(get_key md5 phone := None)) phone info =
          files(get_key md5 phone \<mapsto> Snapshot info)"
      by (simp add: save_def)
    with lk props later show ?thesis by auto
  qed
  from load_None [of files md5 phone now] fresh stale again recomputed show ?thesis
    by (simp add: CACHE_TTL_def)
qed

theorem cache_expiry_witness:
  "load id 90000 [''83993437321'' \<mapsto> Snapshot (example_info 1002)] ''83993437321'' =
     (None, Map.empty) \<and>
   load id 87402 [''83993437321'' \<mapsto> Snapshot (example_info 1002)] ''83993437321'' =
     (Some (example_info 1002), [''83993437321'' \<mapsto> Snapshot (example_info 1002)]) \<and>
   load id 90000 Map.empty ''83993437321'' = (None, Map.empty) \<and>
   (\<exists>info. lookup id offline 90000 90003
              [''83993437321'' \<mapsto> Snapshot (example_info 1002)] ''83993437321'' =
             Inr (info, [''83993437321'' \<mapsto> Snapshot info]) \<and>
           consulta_ts info = 90003 \<and> 1002 < consulta_ts info)"
proof -
  let ?p = "''83993437321''"
  let ?files = "[?p \<mapsto> Snapshot (example_info 1002)]"
  have entry: "?files (get_key id ?p) = Some (Snapshot (example_info 1002))"
    by (simp add: get_key_def)
  have none: "Map.empty (get_key id ?p) = (None :: cache_file option)"
    by simp
  have expired: "90000 - of_int (consulta_ts (example_info 1002)) > (of_int CACHE_TTL :: real)"
    by (simp add: example_info_def CACHE_TTL_def)
  have fresh: "87402 - of_int (consulta_ts (example_info 1002)) \<le> (of_int CACHE_TTL :: real)"
    by (simp add: example_info_def CACHE_TTL_def)
  have valid: "fst (validate ?p)"
    by (simp add: validate_example)
  have clock: "(90000 :: real) \<le> 90003"
    by simp
  have t: "int_of_time 90003 = 90003"
    by (simp add: int_of_time_def)
  have ts: "consulta_ts (example_info 1002) = 1002"
    by (simp add: example_info_def)
  note stale = cache_expiry
         [where files = ?files and ?md5.0 = id and phone = ?p and now = 90000
            and data = "example_info 1002" and api = offline and t_info = 90003]
  note hit = cache_expiry
         [where files = ?files and ?md5.0 = id and phone = ?p and now = 87402
            and data = "example_info 1002" and api = offline and t_info = 87402]
  note absent = cache_expiry
         [where files = Map.empty and ?md5.0 = id and phone = ?p and now = 90000
            and data = "example_info 1002" and api = offline and t_info = 90003]
  from stale entry expired
  have a: "load id 90000 ?files ?p = (None, ?files(get_key id ?p := None))"
    by blast
  from hit entry fresh have b: "load id 87402 ?files ?p = (Some (example_info 1002), ?files)"
    by blast
  from absent none have c: "load id 90000 Map.empty ?p = (None, Map.empty)"
    by blast
  from stale entry expired valid clock obtain info where
    d: "lookup id offline 90000 90003 ?files ?p =
          Inr (info, ?files(get_key id ?p \<mapsto> Snapshot info))"
    and e: "consulta_ts info = int_of_time 90003"
    and f: "consulta_ts (example_info 1002) < consulta_ts info"
    by blast
  from d e f t ts
  have "lookup id offline 90000 90003 ?files ?p = Inr (info, [?p \<mapsto> Snapshot info]) \<and>
        consulta_ts info = 90003 \<and> 1002 < consulta_ts info"
    by (simp add: get_key_def)
  then have g: "\<exists>info. lookup id offline 90000 90003 ?files ?p =
                   Inr (info, [?p \<mapsto> Snapshot info]) \<and>
                 consulta_ts info = 90003 \<and> 1002 < consulta_ts info"
    by (rule exI)
  from a have a': "load id 90000 ?files ?p = (None, Map.empty)"
    by (simp add: get_key_def)
  from a' b c g show ?thesis
    by (intro conjI)
qed

subsection \<open>The cache key is the argument as passed\<close>

text \<open>
  Claim C9. \<open>lookup\<close> keys the cache by the hash of its argument as passed and stores
  that argument in \<open>numero\<close>, without normalizing it. Hence, under a hash without
  collisions and in a directory written by \<open>lookup\<close>, two lookups of two distinct strings
  (two spellings of one canonical number among them) use distinct keys, return records
  whose \<open>numero\<close> are the two strings, and the second lookup leaves the entry of the
  first in place beside its own.
\<close>

theorem lookup_keys_by_raw_argument:
  assumes inj: "inj md5" and inv: "cache_inv md5 files" and distinct: "p1 \<noteq> p2"
    and first: "lookup md5 api1 t1 t1' files p1 = Inr (r1, files1)"
    and second: "lookup md5 api2 t2 t2' files1 p2 = Inr (r2, files2)"
  shows "get_key md5 p1 = md5 p1 \<and> get_key md5 p2 = md5 p2 \<and>
         get_key md5 p1 \<noteq> get_key md5 p2 \<and>
         numero r1 = p1 \<and> numero r2 = p2 \<and> numero r1 \<noteq> numero r2 \<and>
         files2 (get_key md5 p1) = files1 (get_key md5 p1) \<and>
         (fst (validate p1) \<longrightarrow> files2 (get_key md5 p1) = Some (Snapshot r1)) \<and>
         (fst (validate p2) \<longrightarrow> files2 (get_key md5 p2) = Some (Snapshot r2))"
proof -
  from inj distinct have keys: "get_key md5 p1 \<noteq> get_key md5 p2"
    by (simp add: get_key_def inj_eq)
  from lookup_numero [OF inj inv first] have n1: "numero r1 = p1" .
  from lookup_preserves_inv [OF inv first] have inv1: "cache_inv md5 files1" .
  from lookup_numero [OF inj inv1 second] have n2: "numero r2 = p2" .
  from lookup_other_keys [OF second keys] have kept: "files2 (get_key md5 p1) = files1 (get_key md5 p1)" .
  have s1: "files2 (get_key md5 p1) = Some (Snapshot r1)" if "fst (validate p1)"
    using lookup_valid_stored [OF that first] kept by simp
  have s2: "files2 (get_key md5 p2) = Some (Snapshot r2)" if "fst (validate p2)"
    using lookup_valid_stored [OF that second] .
  from keys n1 n2 distinct kept s1 s2 show ?thesis
    by (simp add: get_key_def)
qed

theorem lookup_keys_by_raw_argument_witness:
  "normalize ''83993437321'' = normalize ''(83) 99343-7321'' \<and>
   get_key id ''83993437321'' \<noteq> get_key id ''(83) 99343-7321'' \<and>
   numero (example_info 1002) = ''83993437321'' \<and>
   numero ((example_info 2001)\<lparr>numero := ''(83) 99343-7321''\<rparr>) = ''(83) 99343-7321''"
proof -
  have inj: "inj (id :: string \<Rightarrow> string)"
    by simp
  have distinct: "''83993437321'' \<noteq> ''(83) 99343-7321''"
    by simp
  have same: "normalize ''83993437321'' = normalize ''(83) 99343-7321''"
    by (simp add: normalize_def is_digit_def)
  from lookup_keys_by_raw_argument
         [OF inj cache_inv_empty distinct lookup_example_first lookup_example_raw] same
  show ?thesis by simp
qed

end
